theory Spec2Isabelle
  imports Complex_Main
begin

section \<open>Data model\<close>

text \<open>
  A frame is a NumPy array of BGR pixels, modelled as the list of its rows. Frames live in a
  store: the pipeline receives a reference, \<open>cv2\<close> writes through it, and slicing reads
  through it. (A crop of height zero is the empty list of rows, whatever its width.)
\<close>

type_synonym color = "nat \<times> nat \<times> nat"
type_synonym image = "color list list"
type_synonym ref = nat

record bounding_box =
  x1 :: int
  y1 :: int
  x2 :: int
  y2 :: int

record detection =
  bounding_box :: bounding_box
  confidence :: "rat option"

text \<open>
  The OCR result: an optional text, one confidence per character slot, and an optional
  padding symbol (a Python string). Confidences are taken as exact rationals; the rounding of
  binary floating point is not represented.
\<close>

record ocr_result =
  ocr_text :: "string option"
  confidences :: "rat list"
  padding_symbol :: "string option"

text \<open>An exception raised by a capability, carried unchanged to the caller.\<close>

datatype exn = Exn string

datatype font = FONT_HERSHEY_SIMPLEX

datatype line_type = LINE_8 | LINE_AA

text \<open>Every call that leaves the pipeline, with the arguments the source passes.\<close>

datatype event =
    DetectorPredict image
  | OcrPredict image
  | Rectangle "int \<times> int" "int \<times> int" color int
  | PutText string "int \<times> int" font rat color int line_type

record state =
  heap :: "ref \<Rightarrow> image"
  trace :: "event list"

text \<open>
  The two injected capabilities of the \<open>ALPR\<close> object. Each either raises or returns; the
  OCR may return \<open>None\<close>. Both only read the image they are given.
\<close>

record alpr =
  detector :: "image \<Rightarrow> exn + detection list"
  ocr :: "image \<Rightarrow> exn + ocr_result option"

text \<open>
  OpenCV's two drawing routines, as functions from the old pixel content to the new one.
  How they rasterise is outside this repository, so they are parameters of the model.
\<close>

record cv2 =
  rectangle :: "image \<Rightarrow> int \<times> int \<Rightarrow> int \<times> int \<Rightarrow> color \<Rightarrow> int \<Rightarrow> image"
  putText :: "image \<Rightarrow> string \<Rightarrow> int \<times> int \<Rightarrow> font \<Rightarrow> rat \<Rightarrow> color \<Rightarrow> int \<Rightarrow> line_type \<Rightarrow> image"

section \<open>Slicing\<close>

text \<open>
  One bound of a Python slice over a sequence of length \<open>n\<close>: a negative bound counts from
  the end, and the result is cut to \<open>0..n\<close>. This is NumPy's doing, not the pipeline's.
\<close>

definition slice_index :: "int \<Rightarrow> nat \<Rightarrow> nat" where
  "slice_index i n = (if i < 0 then nat (max (i + int n) 0) else min (nat i) n)"

definition py_slice :: "'a list \<Rightarrow> int \<Rightarrow> int \<Rightarrow> 'a list" where
  "py_slice xs a b =
     (let lo = slice_index a (length xs); hi = slice_index b (length xs)
      in take (hi - lo) (drop lo xs))"

text \<open>\<^verbatim>\<open>frame[y1:y2, x1:x2]\<close>: rows first, then columns.\<close>

definition crop :: "image \<Rightarrow> int \<Rightarrow> int \<Rightarrow> int \<Rightarrow> int \<Rightarrow> image" where
  "crop frame ya yb xa xb = map (\<lambda>row. py_slice row xa xb) (py_slice frame ya yb)"

section \<open>Text clean-up\<close>

text \<open>
  \<^verbatim>\<open>str.replace(old, new)\<close>: with an empty \<open>old\<close>, \<open>new\<close> is put before every
  character and at the end; otherwise the text is scanned from the left and every
  occurrence found, none overlapping an earlier one, is replaced.
\<close>

function replace_from :: "string \<Rightarrow> string \<Rightarrow> string \<Rightarrow> string" where
  "replace_from old new [] = []"
| "replace_from old new (c # cs) =
     (if old \<noteq> [] \<and> take (length old) (c # cs) = old
      then new @ replace_from old new (drop (length old) (c # cs))
      else c # replace_from old new cs)"
  by pat_completeness auto
termination
  by (relation "measure (\<lambda>(old, new, s). length s)") (auto simp: neq_Nil_conv)

definition str_replace :: "string \<Rightarrow> string \<Rightarrow> string \<Rightarrow> string" where
  "str_replace s old new =
     (if old = [] then new @ concat (map (\<lambda>c. c # new) s) else replace_from old new s)"

text \<open>\<^verbatim>\<open>padding_symbol or ""\<close>: \<open>None\<close> and the empty string are both falsy.\<close>

definition or_empty :: "string option \<Rightarrow> string" where
  "or_empty p = (case p of None \<Rightarrow> [] | Some q \<Rightarrow> (if q = [] then [] else q))"

text \<open>\<^verbatim>\<open>not ocr_result.text\<close>\<close>

definition falsy :: "string option \<Rightarrow> bool" where
  "falsy t = (case t of None \<Rightarrow> True | Some u \<Rightarrow> u = [])"

text \<open>
  \<^verbatim>\<open>ocr_result.text.replace(ocr_result.padding_symbol or "", "")\<close>. The source reaches
  this line only with a truthy text; the \<open>None\<close> branch is there to make the function total.
\<close>

definition plate_text :: "ocr_result \<Rightarrow> string" where
  "plate_text r =
     (case ocr_text r of
        None \<Rightarrow> []
      | Some t \<Rightarrow> str_replace t (or_empty (padding_symbol r)) [])"

section \<open>Confidence display\<close>

text \<open>\<^verbatim>\<open>np.mean\<close> of a non-empty sequence.\<close>

definition mean :: "rat list \<Rightarrow> rat" where
  "mean cs = sum_list cs / of_nat (length cs)"

definition round_half_even :: "rat \<Rightarrow> int" where
  "round_half_even q =
     (let f = \<lfloor>q\<rfloor>; r = q - of_int f
      in if r < 1 / 2 then f else if 1 / 2 < r then f + 1 else if even f then f else f + 1)"

definition digit_char :: "nat \<Rightarrow> char" where
  "digit_char d = ''0123456789'' ! d"

fun digits :: "nat \<Rightarrow> string" where
  "digits n = (if n < 10 then [digit_char n] else digits (n div 10) @ [digit_char (n mod 10)])"

text \<open>The format \<^verbatim>\<open>:.2f\<close>: sign, integer part, point, two decimals.\<close>

definition format_2f :: "rat \<Rightarrow> string" where
  "format_2f q =
     (let n = nat (round_half_even (\<bar>q\<bar> * 100))
      in (if q < 0 then ''-'' else []) @ digits (n div 100) @ ''.'' @
         [digit_char (n mod 100 div 10), digit_char (n mod 10)])"

text \<open>\<^verbatim>\<open>f"{plate_text} {avg_confidence * 100:.2f}%"\<close>\<close>

definition display_text :: "ocr_result \<Rightarrow> string" where
  "display_text r =
     (let avg_confidence = mean (confidences r)
      in plate_text r @ '' '' @ format_2f (avg_confidence * 100) @ ''%'')"

section \<open>The pipeline\<close>

definition emit :: "event \<Rightarrow> state \<Rightarrow> state" where
  "emit e s = s\<lparr>trace := trace s @ [e]\<rparr>"

text \<open>A drawing call: the frame behind the reference is overwritten, the call recorded.\<close>

definition apply_draw :: "cv2 \<Rightarrow> image \<Rightarrow> event \<Rightarrow> image" where
  "apply_draw C img e =
     (case e of
        Rectangle p q col th \<Rightarrow> rectangle C img p q col th
      | PutText txt org f sc col th lt \<Rightarrow> putText C img txt org f sc col th lt
      | _ \<Rightarrow> img)"

definition draw :: "cv2 \<Rightarrow> ref \<Rightarrow> event \<Rightarrow> state \<Rightarrow> state" where
  "draw C frame e s =
     \<lparr>heap = (heap s)(frame := apply_draw C (heap s frame) e), trace = trace s @ [e]\<rparr>"

text \<open>The loop of \<open>predict\<close> over the detections, \<open>recognized_plates\<close> as accumulator.\<close>

fun predict_loop ::
  "alpr \<Rightarrow> ref \<Rightarrow> detection list \<Rightarrow> string list \<Rightarrow> state \<Rightarrow> (exn + string list) \<times> state" where
  "predict_loop A frame [] recognized_plates s = (Inr recognized_plates, s)"
| "predict_loop A frame (d # rest) recognized_plates s =
     (let bbox = bounding_box d;
          cropped_plate = crop (heap s frame) (y1 bbox) (y2 bbox) (x1 bbox) (x2 bbox);
          s' = emit (OcrPredict cropped_plate) s
      in case ocr A cropped_plate of
           Inl e \<Rightarrow> (Inl e, s')
         | Inr None \<Rightarrow> predict_loop A frame rest recognized_plates s'
         | Inr (Some r) \<Rightarrow>
             if falsy (ocr_text r) \<or> confidences r = []
             then predict_loop A frame rest recognized_plates s'
             else predict_loop A frame rest (recognized_plates @ [plate_text r]) s')"

definition predict :: "alpr \<Rightarrow> ref \<Rightarrow> (ref \<Rightarrow> image) \<Rightarrow> (exn + string list) \<times> state" where
  "predict A frame h =
     (let s = \<lparr>heap = h, trace = [DetectorPredict (h frame)]\<rparr>
      in case detector A (h frame) of
           Inl e \<Rightarrow> (Inl e, s)
         | Inr plate_detections \<Rightarrow> predict_loop A frame plate_detections [] s)"

text \<open>The loop of \<open>draw_predictions\<close>: the rectangle comes first, then crop and OCR.\<close>

fun draw_loop ::
  "cv2 \<Rightarrow> alpr \<Rightarrow> ref \<Rightarrow> detection list \<Rightarrow> state \<Rightarrow> (exn + ref) \<times> state" where
  "draw_loop C A frame [] s = (Inr frame, s)"
| "draw_loop C A frame (d # rest) s =
     (let bbox = bounding_box d;
          s1 = draw C frame
                 (Rectangle (x1 bbox, y1 bbox) (x2 bbox, y2 bbox) (36, 255, 12) 2) s;
          cropped_plate = crop (heap s1 frame) (y1 bbox) (y2 bbox) (x1 bbox) (x2 bbox);
          s2 = emit (OcrPredict cropped_plate) s1
      in case ocr A cropped_plate of
           Inl e \<Rightarrow> (Inl e, s2)
         | Inr None \<Rightarrow> draw_loop C A frame rest s2
         | Inr (Some r) \<Rightarrow>
             if falsy (ocr_text r) \<or> confidences r = []
             then draw_loop C A frame rest s2
             else
               (let txt = display_text r;
                    font_scale = 5 / 4;
                    s3 = draw C frame
                           (PutText txt (x1 bbox, y1 bbox - 10) FONT_HERSHEY_SIMPLEX
                              font_scale (0, 0, 0) 6 LINE_AA) s2;
                    s4 = draw C frame
                           (PutText txt (x1 bbox, y1 bbox - 10) FONT_HERSHEY_SIMPLEX
                              font_scale (255, 255, 255) 2 LINE_AA) s3
                in draw_loop C A frame rest s4))"

definition draw_predictions ::
  "cv2 \<Rightarrow> alpr \<Rightarrow> ref \<Rightarrow> (ref \<Rightarrow> image) \<Rightarrow> (exn + ref) \<times> state" where
  "draw_predictions C A frame h =
     (let s = \<lparr>heap = h, trace = [DetectorPredict (h frame)]\<rparr>
      in case detector A (h frame) of
           Inl e \<Rightarrow> (Inl e, s)
         | Inr plate_detections \<Rightarrow> draw_loop C A frame plate_detections s)"

section \<open>What a run shows\<close>

text \<open>The slice \<^verbatim>\<open>frame[y1:y2, x1:x2]\<close> for the box of a detection.\<close>

definition detection_crop :: "image \<Rightarrow> detection \<Rightarrow> image" where
  "detection_crop img d =
     crop img (y1 (bounding_box d)) (y2 (bounding_box d)) (x1 (bounding_box d)) (x2 (bounding_box d))"

text \<open>
  The test of the source,
  \<^verbatim>\<open>ocr_result is None or not ocr_result.text or not ocr_result.confidences\<close>,
  as a predicate on what the OCR returned.
\<close>

definition skip :: "ocr_result option \<Rightarrow> bool" where
  "skip x = (case x of None \<Rightarrow> True | Some r \<Rightarrow> falsy (ocr_text r) \<or> confidences r = [])"

text \<open>
  A successful detection, in the words of the specification: the OCR result is present, its
  text is not empty and its confidences are not empty.
\<close>

definition successful :: "ocr_result option \<Rightarrow> bool" where
  "successful x =
     (case x of
        None \<Rightarrow> False
      | Some r \<Rightarrow>
          (case ocr_text r of None \<Rightarrow> False | Some t \<Rightarrow> t \<noteq> []) \<and> confidences r \<noteq> [])"

fun crop_of :: "event \<Rightarrow> image list" where
  "crop_of (OcrPredict c) = [c]"
| "crop_of _ = []"

fun text_of :: "event \<Rightarrow> string list" where
  "text_of (PutText txt org f sc col th lt) = [txt]"
| "text_of _ = []"

fun is_rectangle :: "event \<Rightarrow> bool" where
  "is_rectangle (Rectangle p q col th) = True"
| "is_rectangle _ = False"

text \<open>The crops handed to the OCR and the strings handed to \<open>putText\<close>, in call order.\<close>

definition ocr_crops :: "event list \<Rightarrow> image list" where
  "ocr_crops t = concat (map crop_of t)"

definition put_texts :: "event list \<Rightarrow> string list" where
  "put_texts t = concat (map text_of t)"

text \<open>The rectangle call of a detection and the two text calls of a surviving one.\<close>

definition box_rectangle :: "detection \<Rightarrow> event" where
  "box_rectangle d =
     Rectangle (x1 (bounding_box d), y1 (bounding_box d)) (x2 (bounding_box d), y2 (bounding_box d))
       (36, 255, 12) 2"

definition label :: "detection \<Rightarrow> ocr_result \<Rightarrow> color \<Rightarrow> int \<Rightarrow> event" where
  "label d r col th =
     PutText (display_text r) (x1 (bounding_box d), y1 (bounding_box d) - 10)
       FONT_HERSHEY_SIMPLEX (5 / 4) col th LINE_AA"

text \<open>The strings one OCR outcome puts on the frame: none, or the display text twice.\<close>

definition overlay_of :: "exn + ocr_result option \<Rightarrow> string list" where
  "overlay_of out =
     (case out of
        Inl e \<Rightarrow> []
      | Inr x \<Rightarrow> if skip x then [] else [display_text (the x), display_text (the x)])"


text \<open>The states one round of the drawing loop passes through.\<close>

definition scanned :: "cv2 \<Rightarrow> ref \<Rightarrow> detection \<Rightarrow> state \<Rightarrow> state" where
  "scanned C fr d s =
     emit (OcrPredict (detection_crop (heap (draw C fr (box_rectangle d) s) fr) d))
       (draw C fr (box_rectangle d) s)"

definition labelled :: "cv2 \<Rightarrow> ref \<Rightarrow> detection \<Rightarrow> ocr_result \<Rightarrow> state \<Rightarrow> state" where
  "labelled C fr d r s =
     draw C fr (label d r (255, 255, 255) 2) (draw C fr (label d r (0, 0, 0) 6) s)"



section \<open>Example inputs\<close>

definition black :: color where
  "black = (0, 0, 0)"

definition green :: color where
  "green = (36, 255, 12)"

definition frame3 :: image where
  "frame3 = [[black, black, black], [black, black, black], [black, black, black]]"

definition heap0 :: "ref \<Rightarrow> image" where
  "heap0 = (\<lambda>a. frame3)"

definition box :: "int \<Rightarrow> int \<Rightarrow> int \<Rightarrow> int \<Rightarrow> detection" where
  "box xa ya xb yb = \<lparr>bounding_box = \<lparr>x1 = xa, y1 = ya, x2 = xb, y2 = yb\<rparr>, confidence = None\<rparr>"

text \<open>A plate read with one padded slot: five confidences for four characters.\<close>

definition padded_read :: ocr_result where
  "padded_read =
     \<lparr>ocr_text = Some ''AB_12'',
      confidences = [99 / 100, 98 / 100, 1 / 2, 97 / 100, 96 / 100],
      padding_symbol = Some ''_''\<rparr>"

definition plain_read :: ocr_result where
  "plain_read =
     \<lparr>ocr_text = Some ''AB12'',
      confidences = [99 / 100, 98 / 100, 97 / 100, 96 / 100],
      padding_symbol = None\<rparr>"

text \<open>
  \<open>reader\<close>: three detections, the middle one of zero area; the OCR reads a padded plate
  on every crop that has a pixel and returns \<open>None\<close> on an empty one.
\<close>

definition reader :: alpr where
  "reader =
     \<lparr>detector = (\<lambda>img. Inr [box 0 0 2 2, box 2 2 2 2, box 1 1 3 3]),
      ocr = (\<lambda>c. if concat c = [] then Inr None else Inr (Some padded_read))\<rparr>"




text \<open>\<open>idle\<close>: a detector that finds nothing.\<close>

definition idle :: alpr where
  "idle = \<lparr>detector = (\<lambda>img. Inr []), ocr = (\<lambda>c. Inr (Some plain_read))\<rparr>"

text \<open>\<open>solo\<close>: one detection, read as a padded plate.\<close>

definition solo :: alpr where
  "solo = \<lparr>detector = (\<lambda>img. Inr [box 0 0 2 2]), ocr = (\<lambda>c. Inr (Some padded_read))\<rparr>"


text \<open>
  \<open>lens\<close>: one detection, and an OCR that looks at the pixels: it reads the plate on a crop
  free of the box colour and nothing on a crop that shows it.
\<close>

definition lens :: alpr where
  "lens =
     \<lparr>detector = (\<lambda>img. Inr [box 0 0 2 2]),
      ocr = (\<lambda>c. if green \<in> set (concat c) then Inr None else Inr (Some plain_read))\<rparr>"


text \<open>
  A stand-in for OpenCV on the examples. The rectangle is the one-pixel outline of the box,
  which is part of what OpenCV's stroke of thickness 2 covers; text is not rasterised.
\<close>

definition on_outline :: "int \<times> int \<Rightarrow> int \<times> int \<Rightarrow> int \<Rightarrow> int \<Rightarrow> bool" where
  "on_outline p q x y =
     (((x = fst p \<or> x = fst q) \<and> min (snd p) (snd q) \<le> y \<and> y \<le> max (snd p) (snd q)) \<or>
      ((y = snd p \<or> y = snd q) \<and> min (fst p) (fst q) \<le> x \<and> x \<le> max (fst p) (fst q)))"

fun paint_row :: "(int \<Rightarrow> bool) \<Rightarrow> color \<Rightarrow> int \<Rightarrow> color list \<Rightarrow> color list" where
  "paint_row on col x [] = []"
| "paint_row on col x (px # row) = (if on x then col else px) # paint_row on col (x + 1) row"

fun paint_rows :: "(int \<Rightarrow> int \<Rightarrow> bool) \<Rightarrow> color \<Rightarrow> int \<Rightarrow> image \<Rightarrow> image" where
  "paint_rows on col y [] = []"
| "paint_rows on col y (row # rows) =
     paint_row (\<lambda>x. on x y) col 0 row # paint_rows on col (y + 1) rows"

definition outline :: "image \<Rightarrow> int \<times> int \<Rightarrow> int \<times> int \<Rightarrow> color \<Rightarrow> int \<Rightarrow> image" where
  "outline img p q col th = paint_rows (on_outline p q) col 0 img"

definition sketch :: cv2 where
  "sketch = \<lparr>rectangle = outline, putText = (\<lambda>img txt org f sc col th lt. img)\<rparr>"


section \<open>Auxiliary facts\<close>

lemma emit_heap [simp]: "heap (emit e s) = heap s"
  by (simp add: emit_def)

lemma emit_trace [simp]: "trace (emit e s) = trace s @ [e]"
  by (simp add: emit_def)

lemma draw_heap [simp]: "heap (draw C fr e s) = (heap s)(fr := apply_draw C (heap s fr) e)"
  by (simp add: draw_def)

lemma draw_trace [simp]: "trace (draw C fr e s) = trace s @ [e]"
  by (simp add: draw_def)

lemma skip_simps [simp]:
  "skip None"
  "skip (Some r) = (falsy (ocr_text r) \<or> confidences r = [])"
  by (simp_all add: skip_def)

lemma predict_loop_Cons:
  "predict_loop A fr (d # ds) acc s =
     (case ocr A (detection_crop (heap s fr) d) of
        Inl e \<Rightarrow> (Inl e, emit (OcrPredict (detection_crop (heap s fr) d)) s)
      | Inr x \<Rightarrow>
          predict_loop A fr ds (if skip x then acc else acc @ [plate_text (the x)])
            (emit (OcrPredict (detection_crop (heap s fr) d)) s))"
  by (simp add: Let_def detection_crop_def split: sum.splits option.splits)

lemma draw_loop_Cons:
  "draw_loop C A fr (d # ds) s =
     (case ocr A (detection_crop (heap (scanned C fr d s) fr) d) of
        Inl e \<Rightarrow> (Inl e, scanned C fr d s)
      | Inr x \<Rightarrow>
          draw_loop C A fr ds
            (if skip x then scanned C fr d s else labelled C fr d (the x) (scanned C fr d s)))"
  by (simp add: Let_def detection_crop_def scanned_def labelled_def box_rectangle_def label_def
        split: sum.splits option.splits)

lemma scanned_trace:
  "trace (scanned C fr d s) =
     trace s @ [box_rectangle d, OcrPredict (detection_crop (heap (scanned C fr d s) fr) d)]"
  by (simp add: scanned_def)

lemma scanned_heap:
  "heap (scanned C fr d s) = (heap s)(fr := apply_draw C (heap s fr) (box_rectangle d))"
  by (simp add: scanned_def)

lemma labelled_trace:
  "trace (labelled C fr d r s) = trace s @ [label d r (0, 0, 0) 6, label d r (255, 255, 255) 2]"
  by (simp add: labelled_def)

lemma labelled_heap:
  "heap (labelled C fr d r s) =
     (heap s)(fr := apply_draw C (apply_draw C (heap s fr) (label d r (0, 0, 0) 6))
                      (label d r (255, 255, 255) 2))"
  by (simp add: labelled_def)

lemma ocr_crops_simps [simp]:
  "ocr_crops [] = []" "ocr_crops (e # t) = crop_of e @ ocr_crops t"
  "ocr_crops (t @ u) = ocr_crops t @ ocr_crops u"
  by (simp_all add: ocr_crops_def)

lemma put_texts_simps [simp]:
  "put_texts [] = []" "put_texts (e # t) = text_of e @ put_texts t"
  "put_texts (t @ u) = put_texts t @ put_texts u"
  by (simp_all add: put_texts_def)

lemma event_simps [simp]:
  "crop_of (box_rectangle d) = []" "crop_of (label d r col th) = []"
  "text_of (box_rectangle d) = []" "text_of (label d r col th) = [display_text r]"
  "is_rectangle (box_rectangle d)" "\<not> is_rectangle (label d r col th)"
  by (simp_all add: box_rectangle_def label_def)

lemma predict_loop_heap: "heap (snd (predict_loop A fr ds acc s)) = heap s"
  by (induction ds arbitrary: acc s) (simp_all add: predict_loop_Cons split: sum.splits del: predict_loop.simps(2))

lemma predict_loop_result:
  "map (\<lambda>d. ocr A (detection_crop (heap s fr) d)) ds = map Inr rs \<Longrightarrow>
   fst (predict_loop A fr ds acc s) =
     Inr (acc @ map (plate_text \<circ> the) (filter (\<lambda>x. \<not> skip x) rs))"
proof (induction ds arbitrary: rs acc s)
  case Nil
  then show ?case by simp
next
  case (Cons d ds)
  from Cons.prems obtain x xs where rs: "rs = x # xs"
    and hd: "ocr A (detection_crop (heap s fr) d) = Inr x"
    and tl: "map (\<lambda>d. ocr A (detection_crop (heap s fr) d)) ds = map Inr xs"
    by (cases rs) auto
  show ?case
    using tl by (simp add: predict_loop_Cons hd rs Cons.IH del: predict_loop.simps(2))
qed



lemma draw_loop_ref: "fst (draw_loop C A fr ds s) = Inr r \<Longrightarrow> r = fr"
proof (induction ds arbitrary: s)
  case Nil
  then show ?case by simp
next
  case (Cons d ds)
  from Cons.prems show ?case
    by (auto simp: draw_loop_Cons split: sum.splits dest!: Cons.IH simp del: draw_loop.simps(2))
qed


lemma draw_loop_frame_only:
  "a \<noteq> fr \<Longrightarrow> heap (snd (draw_loop C A fr ds s)) a = heap s a"
proof (induction ds arbitrary: s)
  case Nil
  show ?case by simp
next
  case (Cons d ds)
  from Cons.prems show ?case
    by (simp add: draw_loop_Cons Cons.IH scanned_heap labelled_heap split: sum.splits
          del: draw_loop.simps(2))
qed

lemma draw_loop_fold:
  "heap s fr = foldl (apply_draw C) img (trace s) \<Longrightarrow>
   heap (snd (draw_loop C A fr ds s)) fr =
     foldl (apply_draw C) img (trace (snd (draw_loop C A fr ds s)))"
proof (induction ds arbitrary: s)
  case Nil
  then show ?case by simp
next
  case (Cons d ds)
  have ocr_id: "apply_draw C i (OcrPredict c) = i" for i c
    by (simp add: apply_draw_def)
  from Cons.prems show ?case
    by (auto simp: draw_loop_Cons scanned_heap labelled_heap scanned_trace labelled_trace ocr_id
          split: sum.splits intro!: Cons.IH simp del: draw_loop.simps(2))
qed


lemma overlay_of_simps [simp]:
  "overlay_of (Inl e) = []"
  "overlay_of (Inr x) = (if skip x then [] else [display_text (the x), display_text (the x)])"
  by (simp_all add: overlay_of_def)


lemma replace_from_single: "replace_from [p] [] s = filter (\<lambda>c. c \<noteq> p) s"
  by (induction s) auto

lemma str_replace_nothing: "str_replace s [] [] = s"
  by (induction s) (auto simp: str_replace_def)

lemma plate_text_no_padding:
  "ocr_text r = Some t \<Longrightarrow> or_empty (padding_symbol r) = [] \<Longrightarrow> plate_text r = t"
  by (simp add: plate_text_def str_replace_nothing)

lemma plate_text_single:
  "ocr_text r = Some t \<Longrightarrow> padding_symbol r = Some [p] \<Longrightarrow>
   plate_text r = filter (\<lambda>c. c \<noteq> p) t"
  by (simp add: plate_text_def or_empty_def str_replace_def replace_from_single)

lemma plate_text_free: "padding_symbol r = Some [p] \<Longrightarrow> p \<notin> set (plate_text r)"
  by (cases "ocr_text r") (simp_all add: plate_text_def or_empty_def str_replace_def replace_from_single)

lemma successful_iff: "successful x = (\<not> skip x)"
  by (cases x) (auto simp: successful_def falsy_def split: option.splits)


lemma apply_draw_call [simp]:
  "apply_draw C img (OcrPredict c) = img" "apply_draw C img (DetectorPredict i) = img"
  by (simp_all add: apply_draw_def)







subsection \<open>The example runs, evaluated\<close>

lemmas run_defs = predict_def draw_predictions_def Let_def detection_crop_def crop_def py_slice_def
  slice_index_def emit_def draw_def apply_draw_def box_def heap0_def frame3_def
  plate_text_def str_replace_def or_empty_def falsy_def padded_read_def plain_read_def
  black_def green_def


lemmas sketch_defs = sketch_def outline_def on_outline_def

lemma reader_detections:
  "detector reader (heap0 0) = Inr [box 0 0 2 2, box 2 2 2 2, box 1 1 3 3]"
  by (simp add: reader_def)

lemma reader_outcomes:
  "map (\<lambda>d. ocr reader (detection_crop (heap0 0) d)) [box 0 0 2 2, box 2 2 2 2, box 1 1 3 3] =
   map Inr [Some padded_read, None, Some padded_read]"
  by (simp add: reader_def run_defs)

lemma padded_read_text: "plate_text padded_read = ''AB12''"
  by (simp add: run_defs)


lemma padded_read_kept: "successful (Some padded_read)" "\<not> skip (Some padded_read)"
  by (simp_all add: successful_def skip_def falsy_def padded_read_def)

lemma none_not_successful: "\<not> successful None"
  by (simp add: successful_def)

lemma solo_detections: "detector solo (heap0 0) = Inr [box 0 0 2 2]"
  by (simp add: solo_def)

lemma solo_drawn: "fst (draw_predictions sketch solo 0 heap0) = Inr 0"
  by (simp add: solo_def run_defs sketch_defs)


lemma solo_frame:
  "heap (snd (draw_predictions sketch solo 0 heap0)) 0 =
     [[green, green, green], [green, black, green], [green, green, green]]"
  by (simp add: solo_def run_defs sketch_defs)








lemma lens_predict:
  "fst (predict lens 0 heap0) = Inr [''AB12'']"
  "trace (snd (predict lens 0 heap0)) =
     [DetectorPredict frame3, OcrPredict [[black, black], [black, black]]]"
  by (simp_all add: lens_def run_defs)

lemma lens_draw:
  "fst (draw_predictions sketch lens 0 heap0) = Inr 0"
  "trace (snd (draw_predictions sketch lens 0 heap0)) =
     [DetectorPredict frame3, Rectangle (0, 0) (2, 2) (36, 255, 12) 2,
      OcrPredict [[green, green], [green, black]]]"
  by (simp_all add: lens_def run_defs sketch_defs)





section \<open>The claims\<close>

text \<open>
  C1. When neither capability raises, \<open>predict\<close> returns the cleaned texts of the successful
  detections and nothing else, one string each, in the detector's order; the output is as
  long as there are successful detections, and no longer than the list of detections.
\<close>

theorem predict_returns_successful_texts:
  assumes "detector A (h fr) = Inr ds"
    and "map (\<lambda>d. ocr A (detection_crop (h fr) d)) ds = map Inr rs"
  shows "\<exists>plates. fst (predict A fr h) = Inr plates \<and>
           plates = map (plate_text \<circ> the) (filter successful rs) \<and>
           length plates = length (filter successful rs) \<and>
           length plates \<le> length ds"
proof -
  have "length (map (\<lambda>d. ocr A (detection_crop (h fr) d)) ds) = length (map Inr rs :: (exn + ocr_result option) list)"
    using assms(2) by simp
  then have len: "length rs = length ds" by simp
  have same: "filter (\<lambda>x. \<not> skip x) rs = filter successful rs"
    by (rule filter_cong) (simp_all add: successful_iff)
  have "fst (predict A fr h) = Inr (map (plate_text \<circ> the) (filter successful rs))"
    using predict_loop_result [of A "\<lparr>heap = h, trace = [DetectorPredict (h fr)]\<rparr>" fr ds rs "[]"]
      assms by (simp add: predict_def Let_def same)
  moreover have "length (filter successful rs) \<le> length ds"
    using len length_filter_le [of successful rs] by simp
  ultimately show ?thesis by simp
qed

theorem predict_returns_successful_texts_witness:
  "detector reader (heap0 0) = Inr [box 0 0 2 2, box 2 2 2 2, box 1 1 3 3] \<and>
   map (\<lambda>d. ocr reader (detection_crop (heap0 0) d)) [box 0 0 2 2, box 2 2 2 2, box 1 1 3 3] =
     map Inr [Some padded_read, None, Some padded_read] \<and>
   fst (predict reader 0 heap0) = Inr [''AB12'', ''AB12'']"
  using predict_returns_successful_texts
      [where A = reader and h = heap0 and fr = 0, OF reader_detections reader_outcomes]
    reader_detections reader_outcomes
  by (auto simp: padded_read_kept none_not_successful padded_read_text)

text \<open>
  C3. The cleaned text of an OCR result: with no padding symbol it is the raw text, and with a
  padding symbol of one character it is the raw text without that character, wherever it
  stood.
\<close>

theorem padding_removed_everywhere:
  assumes "ocr_text r = Some t"
  shows "(padding_symbol r = None \<longrightarrow> plate_text r = t) \<and>
         (padding_symbol r = Some [p] \<longrightarrow> plate_text r = filter (\<lambda>c. c \<noteq> p) t)"
  using assms by (simp add: plate_text_single plate_text_no_padding or_empty_def)

theorem padding_removed_everywhere_witness:
  "ocr_text plain_read = Some ''AB12'' \<and> padding_symbol plain_read = None \<and>
   plate_text plain_read = ''AB12'' \<and>
   ocr_text padded_read = Some ''AB_12'' \<and> padding_symbol padded_read = Some ''_'' \<and>
   plate_text padded_read = ''AB12''"
proof -
  have a: "ocr_text plain_read = Some ''AB12''" "padding_symbol plain_read = None"
    by (simp_all add: plain_read_def)
  have b: "ocr_text padded_read = Some ''AB_12''" "padding_symbol padded_read = Some ''_''"
    by (simp_all add: padded_read_def)
  show ?thesis
    using padding_removed_everywhere [OF a(1)] padding_removed_everywhere [OF b(1), of "CHR ''_''"]
      a b by simp
qed

text \<open>
  C10. Every string \<open>predict\<close> returns for a surviving detection is free of the padding
  symbol of its OCR result, when that symbol is a single character.
\<close>

theorem predict_output_free_of_padding:
  assumes "detector A (h fr) = Inr ds"
    and "map (\<lambda>d. ocr A (detection_crop (h fr) d)) ds = map Inr rs"
  shows "\<exists>plates. fst (predict A fr h) = Inr plates \<and>
           list_all2 (\<lambda>x plate. \<forall>p. padding_symbol (the x) = Some [p] \<longrightarrow> p \<notin> set plate)
             (filter successful rs) plates"
proof -
  have same: "filter (\<lambda>x. \<not> skip x) rs = filter successful rs"
    by (rule filter_cong) (simp_all add: successful_iff)
  have out: "fst (predict A fr h) = Inr (map (plate_text \<circ> the) (filter successful rs))"
    using predict_loop_result [of A "\<lparr>heap = h, trace = [DetectorPredict (h fr)]\<rparr>" fr ds rs "[]"]
      assms by (simp add: predict_def Let_def same)
  have "list_all2 (\<lambda>x plate. \<forall>p. padding_symbol (the x) = Some [p] \<longrightarrow> p \<notin> set plate)
          xs (map (plate_text \<circ> the) xs)" for xs :: "ocr_result option list"
    by (simp add: list_all2_map2 list.rel_refl plate_text_free)
  with out show ?thesis by simp
qed

theorem predict_output_free_of_padding_witness:
  "detector reader (heap0 0) = Inr [box 0 0 2 2, box 2 2 2 2, box 1 1 3 3] \<and>
   map (\<lambda>d. ocr reader (detection_crop (heap0 0) d)) [box 0 0 2 2, box 2 2 2 2, box 1 1 3 3] =
     map Inr [Some padded_read, None, Some padded_read] \<and>
   padding_symbol padded_read = Some ''_'' \<and>
   (\<exists>a b. fst (predict reader 0 heap0) = Inr [a, b] \<and> CHR ''_'' \<notin> set a \<and> CHR ''_'' \<notin> set b)"
proof -
  have pad: "padding_symbol padded_read = Some ''_''"
    by (simp add: padded_read_def)
  from predict_output_free_of_padding
      [where A = reader and h = heap0 and fr = 0, OF reader_detections reader_outcomes]
  obtain plates where out: "fst (predict reader 0 heap0) = Inr plates"
    and rel: "list_all2 (\<lambda>x plate. \<forall>p. padding_symbol (the x) = Some [p] \<longrightarrow> p \<notin> set plate)
                [Some padded_read, Some padded_read] plates"
    by (auto simp: padded_read_kept none_not_successful)
  from rel obtain a b where "plates = [a, b]" "CHR ''_'' \<notin> set a" "CHR ''_'' \<notin> set b"
    by (auto simp: list_all2_Cons1 pad)
  with out pad reader_detections reader_outcomes show ?thesis by simp
qed

text \<open>
  C8. When the detector finds nothing, \<open>predict\<close> returns the empty list, and
  \<open>draw_predictions\<close> returns the frame it was given with its content as it was, having
  made no call but the one to the detector.
\<close>

theorem no_detections_no_output:
  assumes "detector A (h fr) = Inr []"
  shows "fst (predict A fr h) = Inr [] \<and>
         fst (draw_predictions C A fr h) = Inr fr \<and>
         heap (snd (draw_predictions C A fr h)) = h \<and>
         trace (snd (draw_predictions C A fr h)) = [DetectorPredict (h fr)]"
  using assms by (simp add: predict_def draw_predictions_def Let_def)

theorem no_detections_no_output_witness:
  "detector idle (heap0 0) = Inr [] \<and>
   fst (predict idle 0 heap0) = Inr [] \<and>
   fst (draw_predictions sketch idle 0 heap0) = Inr 0 \<and>
   heap (snd (draw_predictions sketch idle 0 heap0)) = heap0 \<and>
   trace (snd (draw_predictions sketch idle 0 heap0)) = [DetectorPredict frame3]"
proof -
  have d: "detector idle (heap0 0) = Inr []"
    by (simp add: idle_def)
  show ?thesis
    using no_detections_no_output [where A = idle and h = heap0 and fr = 0 and C = sketch, OF d] d by (simp add: heap0_def)
qed

text \<open>
  C9. \<open>predict\<close> leaves the store as it found it. \<open>draw_predictions\<close> writes to the frame it
  was given and to nothing else: the content behind the reference is the old content with the
  drawing calls of the run applied in order, and the reference returned is the one received.
\<close>

theorem frame_read_only_or_in_place:
  "heap (snd (predict A fr h)) = h \<and>
   heap (snd (draw_predictions C A fr h)) =
     h(fr := foldl (apply_draw C) (h fr) (trace (snd (draw_predictions C A fr h)))) \<and>
   (fst (draw_predictions C A fr h) = Inr r \<longrightarrow> r = fr)"
proof -
  let ?s = "\<lparr>heap = h, trace = [DetectorPredict (h fr)]\<rparr>"
  have p: "heap (snd (predict A fr h)) = h"
    by (simp add: predict_def Let_def predict_loop_heap split: sum.splits)
  have start: "heap ?s fr = foldl (apply_draw C) (h fr) (trace ?s)"
    by simp
  have at: "heap (snd (draw_predictions C A fr h)) fr =
      foldl (apply_draw C) (h fr) (trace (snd (draw_predictions C A fr h)))"
    using draw_loop_fold [OF start] by (simp add: draw_predictions_def Let_def split: sum.splits)
  have off: "heap (snd (draw_predictions C A fr h)) a = h a" if "a \<noteq> fr" for a
    using that by (simp add: draw_predictions_def Let_def draw_loop_frame_only split: sum.splits)
  have d: "heap (snd (draw_predictions C A fr h)) =
      h(fr := foldl (apply_draw C) (h fr) (trace (snd (draw_predictions C A fr h))))"
  proof
    fix a
    show "heap (snd (draw_predictions C A fr h)) a =
        (h(fr := foldl (apply_draw C) (h fr) (trace (snd (draw_predictions C A fr h))))) a"
      using at off [of a] by (cases "a = fr") simp_all
  qed
  have r: "fst (draw_predictions C A fr h) = Inr r \<longrightarrow> r = fr"
    by (auto simp: draw_predictions_def Let_def split: sum.splits dest: draw_loop_ref)
  from p d r show ?thesis by simp
qed

theorem frame_read_only_or_in_place_witness:
  "fst (draw_predictions sketch solo 0 heap0) = Inr 0 \<and>
   heap (snd (predict solo 0 heap0)) 0 = frame3 \<and>
   heap (snd (draw_predictions sketch solo 0 heap0)) 0 =
     [[green, green, green], [green, black, green], [green, green, green]] \<and>
   heap (snd (draw_predictions sketch solo 0 heap0)) 1 = frame3"
proof -
  note t = frame_read_only_or_in_place [of solo 0 heap0 sketch 0]
  have "heap (snd (predict solo 0 heap0)) 0 = frame3"
    using t by (simp add: heap0_def)
  moreover have "heap (snd (draw_predictions sketch solo 0 heap0)) 1 = frame3"
  proof -
    have "heap (snd (draw_predictions sketch solo 0 heap0)) 1 =
        (heap0(0 := foldl (apply_draw sketch) (heap0 0)
           (trace (snd (draw_predictions sketch solo 0 heap0))))) 1"
      using t by simp
    then show ?thesis by (simp add: heap0_def)
  qed
  ultimately show ?thesis
    using solo_drawn solo_frame by simp
qed




text \<open>
  C4. On \<open>lens\<close>, whose OCR looks at the pixels, \<open>predict\<close> reads the plate from the clean
  crop, while \<open>draw_predictions\<close> hands the OCR a crop that already shows the rectangle and
  so annotates nothing.
\<close>

theorem draw_predictions_reads_painted_crop:
  "fst (predict lens 0 heap0) = Inr [''AB12''] \<and>
   ocr_crops (trace (snd (predict lens 0 heap0))) = [[[black, black], [black, black]]] \<and>
   fst (draw_predictions sketch lens 0 heap0) = Inr 0 \<and>
   ocr_crops (trace (snd (draw_predictions sketch lens 0 heap0))) =
     [[[green, green], [green, black]]] \<and>
   put_texts (trace (snd (draw_predictions sketch lens 0 heap0))) = []"
  using lens_predict lens_draw by (simp add: ocr_crops_def put_texts_def)









end
